theory Spec2Isabelle
  imports
    Complex_Main
    "HOL-Library.Char_ord"
    "HOL-Library.List_Lexorder"
    "HOL-Library.Multiset"
begin

section \<open>JavaScript numbers\<close>

text \<open>
  A TypeScript \<open>number\<close> is an IEEE 754 binary64 value: NaN, an infinity, or a finite
  double, here the real number it denotes. The sign of a zero is not kept: no
  comparison of the program reads it (\<open>-0 === 0\<close> and \<open>-0 < 0\<close> is false).
\<close>

datatype number = NaN | PosInfinity | NegInfinity | Finite real

text \<open>Rounding a real to the nearest integer, a tie to the even one.\<close>

definition roundHalfEven :: "real \<Rightarrow> int" where
  "roundHalfEven y =
     (let f = \<lfloor>y\<rfloor>; d = y - of_int f
      in if d < 1 / 2 then f else if 1 / 2 < d then f + 1 else if even f then f else f + 1)"

text \<open>
  The spacing of the doubles around \<open>x\<close>: \<open>quantum n q x\<close> doubles \<open>q\<close>, at most \<open>n\<close> times,
  until \<open>\<bar>x\<bar> < q * 2 ^ 53\<close>. Started at \<open>1 / 2 ^ 1074\<close>, the spacing of the subnormal
  numbers, with 2045 doublings it ends at \<open>2 ^ 971\<close>, the largest spacing, at the latest.
\<close>

fun quantum :: "nat \<Rightarrow> real \<Rightarrow> real \<Rightarrow> real" where
  "quantum 0 q x = q"
| "quantum (Suc n) q x = (if \<bar>x\<bar> < q * 2 ^ 53 then q else quantum n (2 * q) x)"

text \<open>
  The result of an arithmetic operation whose exact value is \<open>x\<close>: the nearest double,
  a tie to the one with the even significand, and an infinity from \<open>2 ^ 1024\<close> on.
\<close>

definition round64 :: "real \<Rightarrow> number" where
  "round64 x =
     (let q = quantum 2045 (1 / 2 ^ 1074) x;
          y = q * of_int (roundHalfEven (x / q))
      in if 2 ^ 1024 \<le> \<bar>y\<bar> then (if 0 < x then PosInfinity else NegInfinity) else Finite y)"

text \<open>
  The reals that are doubles: an integer \<open>m\<close> with \<open>\<bar>m\<bar> < 2 ^ 53\<close> times a power of two from
  \<open>1 / 2 ^ 1074\<close> to \<open>2 ^ 971\<close>.
\<close>

definition representable :: "real \<Rightarrow> bool" where
  "representable x =
     (\<exists>m::int. \<exists>k::nat. \<bar>m\<bar> < 2 ^ 53 \<and> k \<le> 2045 \<and> x = of_int m * (2 ^ k / 2 ^ 1074))"

definition num_is_nan :: "number \<Rightarrow> bool" where
  "num_is_nan x = (case x of NaN \<Rightarrow> True | _ \<Rightarrow> False)"

definition num_positive :: "number \<Rightarrow> bool" where
  "num_positive x = (case x of PosInfinity \<Rightarrow> True | Finite a \<Rightarrow> 0 < a | _ \<Rightarrow> False)"

text \<open>\<open>x === 0\<close> and \<open>x < 0\<close>.\<close>

definition num_is_zero :: "number \<Rightarrow> bool" where
  "num_is_zero x = (case x of Finite a \<Rightarrow> a = 0 | _ \<Rightarrow> False)"

definition num_less_zero :: "number \<Rightarrow> bool" where
  "num_less_zero x = (case x of NegInfinity \<Rightarrow> True | Finite a \<Rightarrow> a < 0 | _ \<Rightarrow> False)"

text \<open>\<open>x + y\<close>, \<open>-y\<close>, \<open>x - y\<close> and \<open>x * y\<close>.\<close>

fun num_add :: "number \<Rightarrow> number \<Rightarrow> number" where
  "num_add (Finite a) (Finite b) = round64 (a + b)"
| "num_add NaN y = NaN"
| "num_add x NaN = NaN"
| "num_add PosInfinity NegInfinity = NaN"
| "num_add NegInfinity PosInfinity = NaN"
| "num_add PosInfinity y = PosInfinity"
| "num_add NegInfinity y = NegInfinity"
| "num_add (Finite a) y = y"

fun num_negate :: "number \<Rightarrow> number" where
  "num_negate NaN = NaN"
| "num_negate PosInfinity = NegInfinity"
| "num_negate NegInfinity = PosInfinity"
| "num_negate (Finite a) = Finite (- a)"

fun num_sub :: "number \<Rightarrow> number \<Rightarrow> number" where
  "num_sub (Finite a) (Finite b) = round64 (a - b)"
| "num_sub x y = num_add x (num_negate y)"

definition num_mul :: "number \<Rightarrow> number \<Rightarrow> number" where
  "num_mul x y =
     (case (x, y) of
        (Finite a, Finite b) \<Rightarrow> round64 (a * b)
      | _ \<Rightarrow>
          (if num_is_nan x \<or> num_is_nan y then NaN
           else if num_is_zero x \<or> num_is_zero y then NaN
           else if num_positive x = num_positive y then PosInfinity
           else NegInfinity))"


section \<open>Ledger arithmetic (lib/calculations.ts)\<close>

text \<open>
  The three functions as the engine computes them, over doubles. The default parameters
  \<open>perBooking = 50\<close> and \<open>inquiryPay = 0\<close> are optional arguments.
\<close>

definition calculateBookingPay :: "number \<Rightarrow> number option \<Rightarrow> number" where
  "calculateBookingPay bookings perBooking =
     (let rate = (case perBooking of None \<Rightarrow> Finite 50 | Some p \<Rightarrow> p)
      in if num_less_zero bookings then Finite 0 else num_mul bookings rate)"

definition calculateTotalEarnings :: "number \<Rightarrow> number \<Rightarrow> number option \<Rightarrow> number" where
  "calculateTotalEarnings basePay bookingPay inquiryPay =
     num_add (num_add basePay bookingPay) (case inquiryPay of None \<Rightarrow> Finite 0 | Some q \<Rightarrow> q)"

definition calculateRemaining_binary64 :: "number \<Rightarrow> number \<Rightarrow> number \<Rightarrow> number" where
  "calculateRemaining_binary64 prevRemaining advanceUsedToday totalEarnedToday =
     (if num_is_zero advanceUsedToday then num_sub prevRemaining totalEarnedToday
      else num_add (num_sub prevRemaining advanceUsedToday) totalEarnedToday)"

text \<open>
  The ledger store below reads the amounts of a record as the reals they denote and
  the balance update as exact: this is \<open>calculateRemaining\<close>. It is what
  \<open>calculateRemaining_binary64\<close> returns wherever the exact results are doubles (lemma
  \<open>calculateRemaining_exact_reading\<close>), as for all amounts that are integers
  below \<open>2 ^ 53\<close> in size.
\<close>

definition calculateRemaining :: "real \<Rightarrow> real \<Rightarrow> real \<Rightarrow> real" where
  "calculateRemaining prevRemaining advanceUsedToday totalEarnedToday =
     (if advanceUsedToday = 0 then prevRemaining - totalEarnedToday
      else prevRemaining - advanceUsedToday + totalEarnedToday)"


section \<open>Data model (lib/storage.ts)\<close>

record EarningSettings =
  basePay :: real
  perBooking :: real
  advanceBalance :: real

text \<open>
  \<open>RecordFields\<close> is \<open>Omit<DailyRecord, 'id' | 'createdAt'>\<close>, the argument type of
  \<open>saveRecord\<close>; \<open>DailyRecord\<close> extends it by the two omitted fields. The fields \<open>id\<close> and \<open>notes\<close>
  are named \<open>id_field\<close> and \<open>notes_field\<close>: \<open>id\<close> is the identity function of HOL and
  \<open>notes\<close> is a keyword of Isabelle. Dates are strings
  compared lexicographically, which on the format YYYY-MM-DD is what \<open>localeCompare\<close> and
  the operators \<open><\<close> and \<open><=\<close> of the source compute. The optional flag
  \<open>isInitialAdvance?: boolean\<close> is an optional boolean, and is read by its truthiness.
\<close>

record RecordFields =
  date :: string
  basePay :: real
  bookings :: real
  bookingPay :: real
  inquiryPay :: real
  totalEarnings :: real
  advanceUsed :: real
  remaining :: real
  notes_field :: string
  action :: string
  isInitialAdvance :: "bool option"

record DailyRecord = RecordFields +
  id_field :: string
  createdAt :: string

definition isAnchor :: "'a RecordFields_scheme \<Rightarrow> bool" where
  "isAnchor r = (isInitialAdvance r = Some True)"

text \<open>
  \<open>Partial<Omit<DailyRecord, 'id' | 'createdAt'>>\<close>: every key may be absent (\<open>None\<close>).
  A key that is present holds a value of its type.
\<close>

record RecordPatch =
  patch_date :: "string option"
  patch_basePay :: "real option"
  patch_bookings :: "real option"
  patch_bookingPay :: "real option"
  patch_inquiryPay :: "real option"
  patch_totalEarnings :: "real option"
  patch_advanceUsed :: "real option"
  patch_remaining :: "real option"
  patch_notes :: "string option"
  patch_action :: "string option"
  patch_isInitialAdvance :: "bool option"

definition orKeep :: "'a option \<Rightarrow> 'a \<Rightarrow> 'a" where
  "orKeep v old = (case v of None \<Rightarrow> old | Some new \<Rightarrow> new)"

text \<open>The object spread \<open>{ ...records[index], ...patch }\<close>.\<close>

definition applyPatch :: "DailyRecord \<Rightarrow> RecordPatch \<Rightarrow> DailyRecord" where
  "applyPatch r p =
     r\<lparr> date := orKeep (patch_date p) (date r),
        basePay := orKeep (patch_basePay p) (RecordFields.basePay r),
        bookings := orKeep (patch_bookings p) (bookings r),
        bookingPay := orKeep (patch_bookingPay p) (bookingPay r),
        inquiryPay := orKeep (patch_inquiryPay p) (inquiryPay r),
        totalEarnings := orKeep (patch_totalEarnings p) (totalEarnings r),
        advanceUsed := orKeep (patch_advanceUsed p) (advanceUsed r),
        remaining := orKeep (patch_remaining p) (remaining r),
        notes_field := orKeep (patch_notes p) (notes_field r),
        action := orKeep (patch_action p) (action r),
        isInitialAdvance :=
          (case patch_isInitialAdvance p of None \<Rightarrow> isInitialAdvance r | Some b \<Rightarrow> Some b) \<rparr>"

text \<open>
  The browser's \<open>localStorage\<close> under the two keys of the module. An item is missing, or
  holds text that \<open>JSON.parse\<close> rejects, or holds the JSON of a value; what the module
  itself writes with \<open>JSON.stringify\<close> always parses back to the value written.
\<close>

datatype 'a item = NoItem | Unparseable | Parsed 'a

record localStorage =
  earnings_settings :: "EarningSettings item"
  earnings_records :: "DailyRecord list item"

datatype backend = Local | Supabase

text \<open>
  The environment: \<open>NEXT_PUBLIC_BACKEND_MODE\<close> as read by \<open>getBackendMode\<close>, and whether
  \<open>window\<close> is defined (browser) or not (server side).
\<close>

record environment =
  backendMode :: backend
  hasWindow :: bool

text \<open>
  What \<open>generateId()\<close> and \<open>new Date().toISOString()\<close> return during one call; both are
  inputs of the model.
\<close>

record fresh =
  newId :: string
  isoNow :: string

text \<open>The \<open>Error\<close>s thrown by the module, one constructor for each message.\<close>

datatype error =
    Supabase_not_implemented
  | Cannot_save_on_server
  | Cannot_update_on_server
  | Cannot_create_on_server
  | Record_not_found
  | Initial_advance_exists
  | TypeError

definition DEFAULT_SETTINGS :: EarningSettings where
  "DEFAULT_SETTINGS = \<lparr> EarningSettings.basePay = 200, perBooking = 50, advanceBalance = 0 \<rparr>"


section \<open>Sorting and searching arrays\<close>

text \<open>
  \<open>Array.prototype.sort\<close> is stable. \<open>le a b\<close> stands for \<open>compare(a, b) <= 0\<close>; insertion
  from the right keeps elements that compare equal in their original order.
\<close>

fun insertBy :: "('a \<Rightarrow> 'a \<Rightarrow> bool) \<Rightarrow> 'a \<Rightarrow> 'a list \<Rightarrow> 'a list" where
  "insertBy le x [] = [x]"
| "insertBy le x (y # ys) = (if le x y then x # y # ys else y # insertBy le x ys)"

definition stableSort :: "('a \<Rightarrow> 'a \<Rightarrow> bool) \<Rightarrow> 'a list \<Rightarrow> 'a list" where
  "stableSort le xs = foldr (insertBy le) xs []"

text \<open>\<open>(a, b) => a.date.localeCompare(b.date)\<close> and \<open>(a, b) => b.date.localeCompare(a.date)\<close>.\<close>

definition dateAscending :: "'a RecordFields_scheme \<Rightarrow> 'a RecordFields_scheme \<Rightarrow> bool" where
  "dateAscending a b = (date a \<le> date b)"

definition dateDescending :: "'a RecordFields_scheme \<Rightarrow> 'a RecordFields_scheme \<Rightarrow> bool" where
  "dateDescending a b = (date b \<le> date a)"

text \<open>\<open>Array.prototype.findIndex\<close>, with \<open>None\<close> for \<open>-1\<close>.\<close>

fun findIndex :: "('a \<Rightarrow> bool) \<Rightarrow> 'a list \<Rightarrow> nat option" where
  "findIndex P [] = None"
| "findIndex P (x # xs) =
     (if P x then Some 0 else (case findIndex P xs of None \<Rightarrow> None | Some i \<Rightarrow> Some (Suc i)))"


section \<open>Reading the store\<close>

definition getSettings :: "environment \<Rightarrow> localStorage \<Rightarrow> error + EarningSettings" where
  "getSettings env ls =
     (if backendMode env = Local then
        (if \<not> hasWindow env then Inr DEFAULT_SETTINGS
         else (case earnings_settings ls of
                 NoItem \<Rightarrow> Inr DEFAULT_SETTINGS
               | Unparseable \<Rightarrow> Inr DEFAULT_SETTINGS
               | Parsed s \<Rightarrow> Inr s))
      else Inl Supabase_not_implemented)"

definition listRecords :: "environment \<Rightarrow> localStorage \<Rightarrow> error + DailyRecord list" where
  "listRecords env ls =
     (if backendMode env = Local then
        (if \<not> hasWindow env then Inr []
         else (case earnings_records ls of
                 NoItem \<Rightarrow> Inr []
               | Unparseable \<Rightarrow> Inr []
               | Parsed records \<Rightarrow> Inr (stableSort dateDescending records)))
      else Inl Supabase_not_implemented)"

definition getInitialAdvanceRecord :: "environment \<Rightarrow> localStorage \<Rightarrow> error + DailyRecord option" where
  "getInitialAdvanceRecord env ls =
     (case listRecords env ls of
        Inl e \<Rightarrow> Inl e
      | Inr records \<Rightarrow> Inr (List.find isAnchor records))"


section \<open>saveRecord\<close>

text \<open>
  The starting balance \<open>prevRemaining\<close> that \<open>saveRecord\<close> computes for a new record.
  \<open>previousRecords.sort(...)[0]\<close> is the head of the sorted, non-empty array.
\<close>

definition savePrevRemaining ::
  "environment \<Rightarrow> localStorage \<Rightarrow> DailyRecord list \<Rightarrow> DailyRecord option \<Rightarrow> RecordFields
     \<Rightarrow> error + real" where
  "savePrevRemaining env ls records initialAdvance record =
     (case initialAdvance of
        Some ia \<Rightarrow>
          (case stableSort dateDescending
                  (filter (\<lambda>r. date r < date record \<and> \<not> isAnchor r) records) of
             mostRecent # _ \<Rightarrow> Inr (remaining mostRecent)
           | [] \<Rightarrow> Inr (remaining ia))
      | None \<Rightarrow>
          (case stableSort dateDescending (filter (\<lambda>r. date r < date record) records) of
             mostRecent # _ \<Rightarrow> Inr (remaining mostRecent)
           | [] \<Rightarrow>
               (case getSettings env ls of
                  Inl e \<Rightarrow> Inl e
                | Inr settings \<Rightarrow> Inr (advanceBalance settings))))"

text \<open>\<open>{ ...record, id: generateId(), createdAt: ..., remaining: ... }\<close>.\<close>

definition newRecordOf :: "RecordFields \<Rightarrow> fresh \<Rightarrow> real \<Rightarrow> DailyRecord" where
  "newRecordOf record fr r =
     \<lparr> date = date record,
       basePay = RecordFields.basePay record,
       bookings = bookings record,
       bookingPay = bookingPay record,
       inquiryPay = inquiryPay record,
       totalEarnings = totalEarnings record,
       advanceUsed = advanceUsed record,
       remaining = r,
       notes_field = notes_field record,
       action = action record,
       isInitialAdvance = isInitialAdvance record,
       id_field = newId fr,
       createdAt = isoNow fr \<rparr>"

text \<open>
  Every mutating operation returns its result, or the error it throws, together with the
  store it leaves behind.
\<close>

definition saveRecord ::
  "environment \<Rightarrow> fresh \<Rightarrow> localStorage \<Rightarrow> RecordFields \<Rightarrow> (error + DailyRecord) \<times> localStorage" where
  "saveRecord env fr ls record =
     (if backendMode env = Local then
        (if \<not> hasWindow env then (Inl Cannot_save_on_server, ls)
         else
           (case listRecords env ls of
              Inl e \<Rightarrow> (Inl e, ls)
            | Inr records \<Rightarrow>
                (case getInitialAdvanceRecord env ls of
                   Inl e \<Rightarrow> (Inl e, ls)
                 | Inr initialAdvance \<Rightarrow>
                     (case savePrevRemaining env ls records initialAdvance record of
                        Inl e \<Rightarrow> (Inl e, ls)
                      | Inr prevRemaining \<Rightarrow>
                          (let newRecord =
                                 newRecordOf record fr
                                   (calculateRemaining prevRemaining (advanceUsed record)
                                      (totalEarnings record))
                           in (Inr newRecord,
                               ls\<lparr> earnings_records := Parsed (records @ [newRecord]) \<rparr>))))))
      else (Inl Supabase_not_implemented, ls))"


section \<open>The forward recalculation loop of updateRecord and deleteRecord\<close>

text \<open>
  The starting point when a record has no predecessor: the remaining balance of the
  initial advance record when there is one, else \<open>settings.advanceBalance\<close>.
\<close>

definition startingPoint :: "DailyRecord option \<Rightarrow> EarningSettings \<Rightarrow> real" where
  "startingPoint initialAdvance settings =
     (case initialAdvance of Some ia \<Rightarrow> remaining ia | None \<Rightarrow> advanceBalance settings)"

text \<open>
  One iteration of the \<open>for\<close> loop, at index \<open>i\<close> of the sorted array. The loops of
  \<open>updateRecord\<close> and \<open>deleteRecord\<close> have the same body, where \<open>deleteRecord\<close> reads
  \<open>initialAdvance && !isDeletedInitialAdvance\<close> wherever \<open>updateRecord\<close> reads
  \<open>initialAdvance\<close>. \<open>getSettings()\<close> is read once, before the loop: the store is not
  written until the loop is over.
\<close>

definition recalcAt ::
  "DailyRecord option \<Rightarrow> EarningSettings \<Rightarrow> nat \<Rightarrow> DailyRecord list \<Rightarrow> DailyRecord list" where
  "recalcAt initialAdvance settings i rs =
     (let cur = rs ! i in
      if isAnchor cur then rs
      else if i = 0 \<or> (case initialAdvance of Some ia \<Rightarrow> date cur \<le> date ia | None \<Rightarrow> False)
      then
        rs[i := cur\<lparr> remaining :=
                     calculateRemaining (startingPoint initialAdvance settings)
                       (advanceUsed cur) (totalEarnings cur) \<rparr>]
      else
        (let prevRecords = filter (\<lambda>r. \<not> isAnchor r \<or> date r \<le> date cur) (take i rs);
             prevRemaining =
               (if prevRecords \<noteq> [] then remaining (last prevRecords)
                else startingPoint initialAdvance settings)
         in rs[i := cur\<lparr> remaining :=
                        calculateRemaining prevRemaining (advanceUsed cur) (totalEarnings cur) \<rparr>]))"

text \<open>\<open>for (let i = start; i < rs.length; i++)\<close>.\<close>

definition recalcFrom ::
  "DailyRecord option \<Rightarrow> EarningSettings \<Rightarrow> nat \<Rightarrow> DailyRecord list \<Rightarrow> DailyRecord list" where
  "recalcFrom initialAdvance settings start rs =
     fold (recalcAt initialAdvance settings) [start..<length rs] rs"


section \<open>updateRecord\<close>

text \<open>
  \<open>sortedRecords.findIndex\<close> always finds the patched record, whose id the patch cannot
  change; were it \<open>-1\<close>, the loop would read \<open>sortedRecords[-1].isInitialAdvance\<close>, a
  \<open>TypeError\<close>.
\<close>

definition updateRecord ::
  "environment \<Rightarrow> localStorage \<Rightarrow> string \<Rightarrow> RecordPatch \<Rightarrow> (error + DailyRecord) \<times> localStorage" where
  "updateRecord env ls rid patch =
     (if backendMode env = Local then
        (if \<not> hasWindow env then (Inl Cannot_update_on_server, ls)
         else
           (case listRecords env ls of
              Inl e \<Rightarrow> (Inl e, ls)
            | Inr records \<Rightarrow>
                (case findIndex (\<lambda>r. id_field r = rid) records of
                   None \<Rightarrow> (Inl Record_not_found, ls)
                 | Some index \<Rightarrow>
                     (let updated = applyPatch (records ! index) patch in
                      if patch_advanceUsed patch \<noteq> None \<or> patch_totalEarnings patch \<noteq> None
                           \<or> patch_date patch \<noteq> None
                      then
                        (let sortedRecords = stableSort dateAscending (records[index := updated]) in
                         case findIndex (\<lambda>r. id_field r = rid) sortedRecords of
                           None \<Rightarrow> (Inl TypeError, ls)
                         | Some recordIndex \<Rightarrow>
                             (case getInitialAdvanceRecord env ls of
                                Inl e \<Rightarrow> (Inl e, ls)
                              | Inr initialAdvance \<Rightarrow>
                                  (case getSettings env ls of
                                     Inl e \<Rightarrow> (Inl e, ls)
                                   | Inr settings \<Rightarrow>
                                       (let final = recalcFrom initialAdvance settings recordIndex
                                                      sortedRecords;
                                            ls' = ls\<lparr> earnings_records := Parsed final \<rparr>
                                        in case List.find (\<lambda>r. id_field r = rid) final of
                                             None \<Rightarrow> (Inl TypeError, ls')
                                           | Some r \<Rightarrow> (Inr r, ls')))))
                      else
                        (Inr updated,
                         ls\<lparr> earnings_records := Parsed (records[index := updated]) \<rparr>)))))
      else (Inl Supabase_not_implemented, ls))"


section \<open>deleteRecord\<close>

definition deleteRecord ::
  "environment \<Rightarrow> localStorage \<Rightarrow> string \<Rightarrow> (error + unit) \<times> localStorage" where
  "deleteRecord env ls rid =
     (if backendMode env = Local then
        (if \<not> hasWindow env then (Inr (), ls)
         else
           (case listRecords env ls of
              Inl e \<Rightarrow> (Inl e, ls)
            | Inr records \<Rightarrow>
                (let filtered = filter (\<lambda>r. id_field r \<noteq> rid) records;
                     sortedFiltered = stableSort dateAscending filtered
                 in case getInitialAdvanceRecord env ls of
                      Inl e \<Rightarrow> (Inl e, ls)
                    | Inr initialAdvance \<Rightarrow>
                        (let deletedRecord = List.find (\<lambda>r. id_field r = rid) records;
                             isDeletedInitialAdvance =
                               (case deletedRecord of None \<Rightarrow> False | Some d \<Rightarrow> isAnchor d);
                             effective =
                               (if isDeletedInitialAdvance then None else initialAdvance)
                         in case getSettings env ls of
                              Inl e \<Rightarrow> (Inl e, ls)
                            | Inr settings \<Rightarrow>
                                (Inr (),
                                 ls\<lparr> earnings_records :=
                                       Parsed (recalcFrom effective settings 0 sortedFiltered) \<rparr>)))))
      else (Inl Supabase_not_implemented, ls))"


section \<open>createInitialAdvanceRecord\<close>

text \<open>
  \<open>date || new Date().toISOString().split('T')[0]\<close>: a missing or empty date gives the
  day of the clock.
\<close>

definition dateOrToday :: "string option \<Rightarrow> fresh \<Rightarrow> string" where
  "dateOrToday d fr =
     (case d of
        None \<Rightarrow> takeWhile (\<lambda>c. c \<noteq> CHR ''T'') (isoNow fr)
      | Some s \<Rightarrow> (if s = [] then takeWhile (\<lambda>c. c \<noteq> CHR ''T'') (isoNow fr) else s))"

definition createInitialAdvanceRecord ::
  "environment \<Rightarrow> fresh \<Rightarrow> localStorage \<Rightarrow> real \<Rightarrow> string option
     \<Rightarrow> (error + DailyRecord) \<times> localStorage" where
  "createInitialAdvanceRecord env fr ls advanceAmount d =
     (if backendMode env = Local then
        (if \<not> hasWindow env then (Inl Cannot_create_on_server, ls)
         else
           (case listRecords env ls of
              Inl e \<Rightarrow> (Inl e, ls)
            | Inr records \<Rightarrow>
                (if list_ex isAnchor records then (Inl Initial_advance_exists, ls)
                 else
                   (let initialRecord =
                          \<lparr> date = dateOrToday d fr,
                            basePay = 0,
                            bookings = 0,
                            bookingPay = 0,
                            inquiryPay = 0,
                            totalEarnings = 0,
                            advanceUsed = 0,
                            remaining = advanceAmount,
                            notes_field = ''Initial Advance Amount'',
                            action = ''Initial Advance'',
                            isInitialAdvance = Some True,
                            id_field = newId fr,
                            createdAt = isoNow fr \<rparr>
                    in (Inr initialRecord,
                        ls\<lparr> earnings_records := Parsed (records @ [initialRecord]) \<rparr>)))))
      else (Inl Supabase_not_implemented, ls))"


section \<open>Auxiliary definitions for the statements\<close>

text \<open>The array under the records key, as \<open>listRecords\<close> parses it before sorting.\<close>

definition storedRecords :: "localStorage \<Rightarrow> DailyRecord list" where
  "storedRecords ls = (case earnings_records ls of Parsed rs \<Rightarrow> rs | _ \<Rightarrow> [])"

text \<open>
  \<open>initialAdvance && !isDeletedInitialAdvance\<close>, the value that stands for the initial
  advance record in the loop of \<open>deleteRecord\<close>.
\<close>

definition effectiveAdvance :: "DailyRecord list \<Rightarrow> string \<Rightarrow> DailyRecord option" where
  "effectiveAdvance rs rid =
     (if (case List.find (\<lambda>r. id_field r = rid) rs of None \<Rightarrow> False | Some d \<Rightarrow> isAnchor d)
      then None else List.find isAnchor rs)"

text \<open>A record with its balance recomputed from the starting balance \<open>b\<close>.\<close>

definition stamp :: "real \<Rightarrow> DailyRecord \<Rightarrow> DailyRecord" where
  "stamp b r = r\<lparr> remaining := calculateRemaining b (advanceUsed r) (totalEarnings r) \<rparr>"

text \<open>A record without its balance: what a recalculation never changes.\<close>

definition eraseRemaining :: "DailyRecord \<Rightarrow> DailyRecord" where
  "eraseRemaining r = r\<lparr> remaining := 0 \<rparr>"

definition remainingOf :: "string \<Rightarrow> DailyRecord list \<Rightarrow> real option" where
  "remainingOf i rs = map_option remaining (List.find (\<lambda>r. id_field r = i) rs)"


section \<open>The specification's recomputation, written after its words\<close>

text \<open>
  The forward chain of the specification (section 3 and the deletion of the anchor in
  section 4.2): the first record starts from the balance \<open>b\<close>, every later record from
  the new balance of its predecessor. This definition follows the specification, not
  the code; \<open>recalcFrom\<close> is the code.
\<close>

fun chainFrom :: "real \<Rightarrow> DailyRecord list \<Rightarrow> DailyRecord list" where
  "chainFrom b [] = []"
| "chainFrom b (r # rs) =
     (let r' = r\<lparr> remaining := calculateRemaining b (advanceUsed r) (totalEarnings r) \<rparr>
      in r' # chainFrom (remaining r') rs)"

definition balanceAfter :: "real \<Rightarrow> DailyRecord list \<Rightarrow> real" where
  "balanceAfter b xs = (if xs = [] then b else remaining (last (chainFrom b xs)))"

text \<open>
  The starting-balance resolution of the specification (section 4.2, rules 1 to 3), for
  a target date over a record set in insertion order. The most recent earlier record,
  the most recently inserted one among those of the same date, is the last earlier
  record of the stable date-ascending order. This definition follows the
  specification, not the code; \<open>savePrevRemaining\<close> is the code.
\<close>

definition specStartingBalance :: "EarningSettings \<Rightarrow> DailyRecord list \<Rightarrow> string \<Rightarrow> real" where
  "specStartingBalance settings rs target =
     (let earlier = filter (\<lambda>r. \<not> isAnchor r \<and> date r < target) (stableSort dateAscending rs)
      in case List.find isAnchor rs of
           Some a \<Rightarrow> (if target \<le> date a \<or> earlier = [] then remaining a
                      else remaining (last earlier))
         | None \<Rightarrow> (if earlier \<noteq> [] then remaining (last earlier)
                    else advanceBalance settings))"

text \<open>
  Recomputing every balance from scratch, as the convergence property of the
  specification words it: one pass over the record set in date-ascending order, each
  record that is not the anchor stamped from its resolved starting balance.
\<close>

definition specRecomputeAt :: "EarningSettings \<Rightarrow> nat \<Rightarrow> DailyRecord list \<Rightarrow> DailyRecord list" where
  "specRecomputeAt settings i rs =
     (let cur = rs ! i in
      if isAnchor cur then rs
      else rs[i := cur\<lparr> remaining :=
                     calculateRemaining (specStartingBalance settings rs (date cur))
                       (advanceUsed cur) (totalEarnings cur) \<rparr>])"

definition recomputeFromScratch :: "EarningSettings \<Rightarrow> DailyRecord list \<Rightarrow> DailyRecord list" where
  "recomputeFromScratch settings rs =
     (let sorted = stableSort dateAscending rs
      in fold (specRecomputeAt settings) [0..<length sorted] sorted)"


section \<open>Concrete stores\<close>

text \<open>A browser in local mode, an empty \<open>localStorage\<close>, and the inputs of the scenarios.\<close>

definition browser :: environment where
  "browser = \<lparr> backendMode = Local, hasWindow = True \<rparr>"

definition emptyStore :: localStorage where
  "emptyStore = \<lparr> earnings_settings = NoItem, earnings_records = NoItem \<rparr>"

definition clock :: "string \<Rightarrow> fresh" where
  "clock i = \<lparr> newId = i, isoNow = ''2024-03-01T08:00:00.000Z'' \<rparr>"

definition entry :: "string \<Rightarrow> real \<Rightarrow> RecordFields" where
  "entry d e =
     \<lparr> date = d, basePay = 0, bookings = 0, bookingPay = 0, inquiryPay = 0,
       totalEarnings = e, advanceUsed = 0, remaining = 0, notes_field = [], action = [],
       isInitialAdvance = None \<rparr>"

definition emptyPatch :: RecordPatch where
  "emptyPatch =
     \<lparr> patch_date = None, patch_basePay = None, patch_bookings = None,
       patch_bookingPay = None, patch_inquiryPay = None, patch_totalEarnings = None,
       patch_advanceUsed = None, patch_remaining = None, patch_notes = None,
       patch_action = None, patch_isInitialAdvance = None \<rparr>"

text \<open>
  The scenario of the specification: an anchor of 1000 on 2024-01-01, record A on
  2024-01-02 earning 200, record B on 2024-01-03 earning 150; then A is edited to earn
  300; then A is deleted.
\<close>

definition anchorStore :: localStorage where
  "anchorStore =
     snd (createInitialAdvanceRecord browser (clock ''anchor'') emptyStore 1000 (Some ''2024-01-01''))"

definition storeA :: localStorage where
  "storeA = snd (saveRecord browser (clock ''A'') anchorStore (entry ''2024-01-02'' 200))"

definition storeAB :: localStorage where
  "storeAB = snd (saveRecord browser (clock ''B'') storeA (entry ''2024-01-03'' 150))"

definition storeEdited :: localStorage where
  "storeEdited =
     snd (updateRecord browser storeAB ''A'' (emptyPatch\<lparr> patch_totalEarnings := Some 300 \<rparr>))"

definition storeDeleted :: localStorage where
  "storeDeleted = snd (deleteRecord browser storeEdited ''A'')"

text \<open>The anchor record of the scenario, as \<open>createInitialAdvanceRecord\<close> builds it.\<close>

definition scenarioAnchor :: DailyRecord where
  "scenarioAnchor =
     \<lparr> date = ''2024-01-01'', basePay = 0, bookings = 0, bookingPay = 0, inquiryPay = 0,
       totalEarnings = 0, advanceUsed = 0, remaining = 1000,
       notes_field = ''Initial Advance Amount'', action = ''Initial Advance'',
       isInitialAdvance = Some True, id_field = ''anchor'',
       createdAt = ''2024-03-01T08:00:00.000Z'' \<rparr>"

text \<open>A record of 2024-01-02 saved first, then a record of 2024-01-01.\<close>

definition backdatedStore :: localStorage where
  "backdatedStore =
     snd (saveRecord browser (clock ''early'')
            (snd (saveRecord browser (clock ''late'') emptyStore (entry ''2024-01-02'' 100)))
            (entry ''2024-01-01'' 50))"

text \<open>Two records of the same day.\<close>

definition tiedStore :: localStorage where
  "tiedStore =
     snd (saveRecord browser (clock ''second'')
            (snd (saveRecord browser (clock ''first'') emptyStore (entry ''2024-01-01'' 100)))
            (entry ''2024-01-01'' 50))"

text \<open>An anchor of 1000 on 2024-01-10, then a record of 2024-01-01.\<close>

definition lateAnchorStore :: localStorage where
  "lateAnchorStore =
     snd (saveRecord browser (clock ''X'')
            (snd (createInitialAdvanceRecord browser (clock ''anchor'') emptyStore 1000
                    (Some ''2024-01-10'')))
            (entry ''2024-01-01'' 100))"


text \<open>
  The two records of the stores above saved once more: \<open>saveRecord\<close> appends a record
  of 2024-01-05 to the store with the late anchor, and a record of 2024-01-02 to the
  store with the two records of one day. Then \<open>updateRecord\<close> patches the new record with
  the total earnings it already has, which runs the recalculation loop from that record.
\<close>

definition lateAnchorSaved :: localStorage where
  "lateAnchorSaved =
     snd (saveRecord browser (clock ''Y'') lateAnchorStore (entry ''2024-01-05'' 10))"

definition lateAnchorResaved :: localStorage where
  "lateAnchorResaved =
     snd (updateRecord browser lateAnchorSaved ''Y'' (emptyPatch\<lparr> patch_totalEarnings := Some 10 \<rparr>))"

definition tiedSaved :: localStorage where
  "tiedSaved = snd (saveRecord browser (clock ''third'') tiedStore (entry ''2024-01-02'' 10))"

definition tiedResaved :: localStorage where
  "tiedResaved =
     snd (updateRecord browser tiedSaved ''third'' (emptyPatch\<lparr> patch_totalEarnings := Some 10 \<rparr>))"


section \<open>Rounding to a double\<close>

lemma num_mul_Finite [simp]: "num_mul (Finite a) (Finite b) = round64 (a * b)"
  by (simp add: num_mul_def)

lemma roundHalfEven_of_int: "roundHalfEven (of_int z) = z"
  by (simp add: roundHalfEven_def)

lemma quantum_eq:
  "i \<le> n \<Longrightarrow> 0 < q \<Longrightarrow> \<bar>x\<bar> < q * 2 ^ i * 2 ^ 53 \<Longrightarrow>
   (0 < i \<longrightarrow> q * 2 ^ (i - 1) * 2 ^ 53 \<le> \<bar>x\<bar>) \<Longrightarrow>
   quantum n q x = q * 2 ^ i"
proof (induction n arbitrary: q i)
  case 0
  then show ?case by simp
next
  case (Suc n)
  show ?case
  proof (cases "\<bar>x\<bar> < q * 2 ^ 53")
    case True
    have "i = 0"
    proof (rule ccontr)
      assume "i \<noteq> 0"
      then have "q * 2 ^ (i - 1) * 2 ^ 53 \<le> \<bar>x\<bar>" using Suc.prems(4) by simp
      moreover have "q * 2 ^ 53 \<le> q * 2 ^ (i - 1) * 2 ^ 53"
        using Suc.prems(2) by simp
      ultimately show False using True by linarith
    qed
    with True show ?thesis by simp
  next
    case False
    then have ipos: "i \<noteq> 0" using Suc.prems(3) by (cases i) auto
    then obtain j where j: "i = Suc j" by (cases i) auto
    have "quantum n (2 * q) x = (2 * q) * 2 ^ j"
    proof (rule Suc.IH)
      show "j \<le> n" using Suc.prems(1) j by simp
      show "0 < 2 * q" using Suc.prems(2) by simp
      show "\<bar>x\<bar> < 2 * q * 2 ^ j * 2 ^ 53" using Suc.prems(3) j by (simp add: mult_ac)
      show "0 < j \<longrightarrow> 2 * q * 2 ^ (j - 1) * 2 ^ 53 \<le> \<bar>x\<bar>"
      proof
        assume "0 < j"
        then obtain l where l: "j = Suc l" by (cases j) auto
        from Suc.prems(4) j l show "2 * q * 2 ^ (j - 1) * 2 ^ 53 \<le> \<bar>x\<bar>"
          by (simp add: mult_ac)
      qed
    qed
    with False j show ?thesis by (simp add: mult_ac)
  qed
qed

lemma quantum_divides:
  "0 < q \<Longrightarrow> \<bar>x\<bar> < q * 2 ^ j * 2 ^ 53 \<Longrightarrow> \<exists>i\<le>j. quantum n q x = q * 2 ^ i"
proof (induction n arbitrary: q j)
  case 0
  then show ?case by (intro exI [of _ 0]) simp
next
  case (Suc n)
  show ?case
  proof (cases "\<bar>x\<bar> < q * 2 ^ 53")
    case True
    then show ?thesis by (intro exI [of _ 0]) simp
  next
    case False
    then have "j \<noteq> 0" using Suc.prems(2) by (cases j) auto
    then obtain l where l: "j = Suc l" by (cases j) auto
    have "\<exists>i\<le>l. quantum n (2 * q) x = 2 * q * 2 ^ i"
    proof (rule Suc.IH)
      show "0 < 2 * q" using Suc.prems(1) by simp
      show "\<bar>x\<bar> < 2 * q * 2 ^ l * 2 ^ 53" using Suc.prems(2) l by (simp add: mult_ac)
    qed
    then obtain i where i: "i \<le> l" "quantum n (2 * q) x = 2 * q * 2 ^ i" by blast
    show ?thesis
    proof (intro exI [of _ "Suc i"] conjI)
      show "Suc i \<le> j" using i(1) l by simp
      show "quantum (Suc n) q x = q * 2 ^ Suc i" using False i(2) by (simp add: mult_ac)
    qed
  qed
qed

lemma round64_representable:
  assumes "representable x"
  shows "round64 x = Finite x"
proof -
  from assms obtain m :: int and k :: nat
    where m: "\<bar>m\<bar> < 2 ^ 53" and k: "k \<le> 2045" and x: "x = of_int m * (2 ^ k / 2 ^ 1074)"
    unfolding representable_def by blast
  let ?least = "1 / 2 ^ 1074 :: real"
  have q0: "0 < ?least" by simp
  have am: "\<bar>of_int m :: real\<bar> < 2 ^ 53"
  proof -
    have "\<bar>of_int m :: real\<bar> = of_int \<bar>m\<bar>" by simp
    also have "\<dots> < of_int (2 ^ 53)" using m by (simp only: of_int_less_iff)
    finally show ?thesis by simp
  qed
  have grid: "2 ^ k / 2 ^ 1074 = ?least * 2 ^ k" by simp
  have "\<bar>x\<bar> = \<bar>of_int m\<bar> * (?least * 2 ^ k)" unfolding x grid by (simp add: abs_mult)
  also have "\<dots> < 2 ^ 53 * (?least * 2 ^ k)"
    using am by (intro mult_strict_right_mono) simp_all
  finally have bound: "\<bar>x\<bar> < ?least * 2 ^ k * 2 ^ 53" by (simp add: mult_ac)
  from quantum_divides [OF q0 bound, of 2045]
  obtain i where i: "i \<le> k" and q: "quantum 2045 ?least x = ?least * 2 ^ i" by blast
  let ?q = "?least * 2 ^ i"
  have qpos: "0 < ?q" by simp
  have split: "(2::real) ^ k = 2 ^ i * 2 ^ (k - i)"
    using i power_add [of "2::real" i "k - i"] by simp
  have xq: "x = ?q * of_int (m * 2 ^ (k - i))"
    unfolding x grid split by simp
  then have "x / ?q = of_int (m * 2 ^ (k - i))" using qpos by simp
  then have r: "roundHalfEven (x / ?q) = m * 2 ^ (k - i)"
    by (simp only: roundHalfEven_of_int)
  have y: "?q * of_int (roundHalfEven (x / ?q)) = x" unfolding r using xq by simp
  have "(2::real) ^ k \<le> 2 ^ 2045" using k by (intro power_increasing) simp_all
  then have "?least * 2 ^ k \<le> ?least * 2 ^ 2045" by (rule mult_left_mono) simp
  then have "?least * 2 ^ k * 2 ^ 53 \<le> ?least * 2 ^ 2045 * (2 ^ 53 :: real)"
    by (rule mult_right_mono) simp
  moreover have "?least * 2 ^ 2045 * (2 ^ 53 :: real) = 2 ^ 1024" by simp
  ultimately have small: "\<bar>x\<bar> < 2 ^ 1024" using bound by linarith
  show ?thesis
    unfolding round64_def Let_def q y using small by simp
qed

lemma quantum_at:
  assumes "i \<le> 2045" "\<bar>x\<bar> < 2 ^ i * 2 ^ 53 / 2 ^ 1074"
    and "0 < i \<longrightarrow> 2 ^ (i - 1) * 2 ^ 53 / 2 ^ 1074 \<le> \<bar>x\<bar>"
  shows "quantum 2045 (1 / 2 ^ 1074) x = 2 ^ i / 2 ^ 1074"
proof -
  have "quantum 2045 (1 / 2 ^ 1074) x = 1 / 2 ^ 1074 * 2 ^ i"
    using assms by (intro quantum_eq) simp_all
  then show ?thesis by simp
qed

lemma representableI:
  "\<bar>m\<bar> < 2 ^ 53 \<Longrightarrow> k \<le> 2045 \<Longrightarrow> x = of_int m * (2 ^ k / 2 ^ 1074) \<Longrightarrow> representable x"
  unfolding representable_def by blast

lemma representable_int: "\<bar>z\<bar> < 2 ^ 53 \<Longrightarrow> representable (of_int z)"
  by (rule representableI [of z 1074]) simp_all

lemma round_2_53_plus_1: "round64 (9007199254740992 - (- 1)) = Finite 9007199254740992"
proof -
  have q: "quantum 2045 (1 / 2 ^ 1074) (9007199254740992 - (- 1)) = 2 ^ 1075 / 2 ^ 1074"
    by (rule quantum_at) simp_all
  show ?thesis unfolding round64_def Let_def q by (simp add: roundHalfEven_def)
qed

lemma round_square: "round64 (94906267 * 94906267) = Finite 9007199515875288"
proof -
  have q: "quantum 2045 (1 / 2 ^ 1074) (94906267 * 94906267) = 2 ^ 1075 / 2 ^ 1074"
    by (rule quantum_at) simp_all
  show ?thesis unfolding round64_def Let_def q by (simp add: roundHalfEven_def)
qed

lemma round_tenth_times_3:
  "round64 (3602879701896397 / 36028797018963968 * 3) =
   Finite (5404319552844596 / 18014398509481984)"
proof -
  have q: "quantum 2045 (1 / 2 ^ 1074) (3602879701896397 / 36028797018963968 * 3) =
           2 ^ 1020 / 2 ^ 1074"
    by (rule quantum_at) simp_all
  show ?thesis unfolding round64_def Let_def q by (simp add: roundHalfEven_def)
qed

lemma calculateRemaining_exact_reading:
  assumes "if A = 0 then representable (R - E)
           else representable (R - A) \<and> representable (R - A + E)"
  shows "calculateRemaining_binary64 (Finite R) (Finite A) (Finite E) =
         Finite (calculateRemaining R A E)"
  using assms
  by (simp add: calculateRemaining_binary64_def calculateRemaining_def num_is_zero_def
      round64_representable split: if_splits)


section \<open>Sorting keeps the records\<close>

lemma mset_insertBy: "mset (insertBy le x ys) = add_mset x (mset ys)"
  by (induction ys) simp_all

lemma mset_stableSort: "mset (stableSort le xs) = mset xs"
  by (induction xs) (simp_all add: stableSort_def mset_insertBy)

lemma set_stableSort: "set (stableSort le xs) = set xs"
  using mset_stableSort [of le xs] by (metis set_mset_mset)

lemma length_stableSort: "length (stableSort le xs) = length xs"
  using mset_stableSort [of le xs] by (metis size_mset)

lemma stableSort_Nil_iff: "stableSort le xs = [] \<longleftrightarrow> xs = []"
  using length_stableSort [of le xs] by (metis length_0_conv)

lemma insertBy_head:
  fixes f :: "'a \<Rightarrow> 'k::linorder"
  assumes "insertBy (\<lambda>a b. f b \<le> f a) x ys = m # ms"
    and "ys \<noteq> [] \<Longrightarrow> \<forall>r\<in>set ys. f r \<le> f (hd ys)"
  shows "\<forall>r\<in>set (x # ys). f r \<le> f m"
proof (cases ys)
  case Nil
  with assms(1) show ?thesis by simp
next
  case (Cons y ys')
  with assms(2) have ub: "\<forall>r\<in>set ys. f r \<le> f y" by simp
  show ?thesis
  proof (cases "f y \<le> f x")
    case True
    with assms(1) Cons have "m = x" by simp
    with ub True show ?thesis by auto
  next
    case False
    with assms(1) Cons have "m = y" by simp
    with ub False show ?thesis by auto
  qed
qed

lemma stableSort_head_max:
  fixes f :: "'a \<Rightarrow> 'k::linorder"
  shows "stableSort (\<lambda>a b. f b \<le> f a) xs = m # ms \<Longrightarrow> \<forall>r\<in>set xs. f r \<le> f m"
proof (induction xs arbitrary: m ms)
  case Nil
  then show ?case by simp
next
  case (Cons x xs)
  let ?ys = "stableSort (\<lambda>a b. f b \<le> f a) xs"
  have ins: "insertBy (\<lambda>a b. f b \<le> f a) x ?ys = m # ms"
    using Cons.prems by (simp add: stableSort_def)
  have hd: "\<forall>r\<in>set ?ys. f r \<le> f (hd ?ys)" if "?ys \<noteq> []"
  proof -
    from that obtain y ys' where y: "?ys = y # ys'" by (cases ?ys) auto
    have "hd ?ys = y" unfolding y by simp
    moreover have "set ?ys = set xs" by (rule set_stableSort)
    ultimately show ?thesis using Cons.IH [OF y] by simp
  qed
  have "\<forall>r\<in>set (x # ?ys). f r \<le> f m" using ins hd by (rule insertBy_head)
  then show ?case by (simp add: set_stableSort)
qed

lemma dateDescending_eq: "dateDescending = (\<lambda>a b. date b \<le> date a)"
  by (intro ext) (simp add: dateDescending_def)

lemma mostRecent_head:
  assumes "stableSort dateDescending xs = m # ms"
  shows "m \<in> set xs \<and> (\<forall>r\<in>set xs. date r \<le> date m)"
proof -
  have "m \<in> set (stableSort dateDescending xs)" unfolding assms by simp
  then have "m \<in> set xs" unfolding set_stableSort .
  moreover have "\<forall>r\<in>set xs. date r \<le> date m"
    using assms unfolding dateDescending_eq by (rule stableSort_head_max)
  ultimately show ?thesis by simp
qed







section \<open>Searching\<close>

lemma findIndex_Some:
  "findIndex P xs = Some i \<Longrightarrow> i < length xs \<and> P (xs ! i) \<and> (\<forall>j<i. \<not> P (xs ! j))"
proof (induction xs arbitrary: i)
  case Nil
  then show ?case by simp
next
  case (Cons x xs)
  show ?case
  proof (cases "P x")
    case True
    with Cons.prems show ?thesis by simp
  next
    case False
    with Cons.prems obtain k where k: "findIndex P xs = Some k" "i = Suc k"
      by (auto split: option.splits)
    from Cons.IH [OF k(1)] False k(2) show ?thesis
      by (auto simp: nth_Cons split: nat.splits)
  qed
qed

lemma findIndex_None: "findIndex P xs = None \<longleftrightarrow> (\<forall>x\<in>set xs. \<not> P x)"
  by (induction xs) (auto split: option.splits)

lemma findIndex_exists: "\<exists>x\<in>set xs. P x \<Longrightarrow> \<exists>i. findIndex P xs = Some i"
  using findIndex_None [of P xs] by (cases "findIndex P xs") auto

lemma find_unique:
  "a \<in> set xs \<Longrightarrow> P a \<Longrightarrow> \<forall>x\<in>set xs. P x \<longrightarrow> x = a \<Longrightarrow> List.find P xs = Some a"
proof (induction xs)
  case Nil
  then show ?case by simp
next
  case (Cons x xs)
  show ?case
  proof (cases "P x")
    case True
    with Cons.prems(3) have "x = a" by simp
    with True show ?thesis by simp
  next
    case False
    with Cons.prems(1,2) have "a \<in> set xs" by auto
    moreover have "\<forall>y\<in>set xs. P y \<longrightarrow> y = a" using Cons.prems(3) by simp
    ultimately have "List.find P xs = Some a" using Cons.prems(2) Cons.IH by blast
    with False show ?thesis by simp
  qed
qed

lemma sole_holder:
  assumes "\<forall>r\<in>S. r \<noteq> a \<longrightarrow> \<not> P r \<and> f r \<noteq> f a"
  shows "\<forall>x\<in>S. f x = f a \<longrightarrow> x = a" and "\<forall>y\<in>S. f y \<noteq> f a \<longrightarrow> \<not> P y"
  using assms by auto



section \<open>The operations in a browser in local mode\<close>

lemma browser_local: "backendMode browser = Local" "hasWindow browser"
  by (simp_all add: browser_def)

lemma listRecords_local:
  "backendMode env = Local \<Longrightarrow> hasWindow env \<Longrightarrow>
   listRecords env ls = Inr (stableSort dateDescending (storedRecords ls))"
  by (simp add: listRecords_def storedRecords_def stableSort_def split: item.splits)

lemma getSettings_local:
  "backendMode env = Local \<Longrightarrow> \<exists>s. getSettings env ls = Inr s"
  by (simp add: getSettings_def split: item.splits)

lemma saveRecord_local:
  assumes "backendMode env = Local" "hasWindow env"
    and "savePrevRemaining env ls (stableSort dateDescending (storedRecords ls))
           (List.find isAnchor (stableSort dateDescending (storedRecords ls))) record = Inr prev"
  shows "saveRecord env fr ls record =
     (Inr (newRecordOf record fr (calculateRemaining prev (advanceUsed record) (totalEarnings record))),
      ls\<lparr> earnings_records :=
            Parsed (stableSort dateDescending (storedRecords ls) @
                    [newRecordOf record fr
                       (calculateRemaining prev (advanceUsed record) (totalEarnings record))]) \<rparr>)"
  unfolding saveRecord_def getInitialAdvanceRecord_def listRecords_local [OF assms(1,2)] Let_def
  by (simp only: assms if_True if_False sum.case simp_thms)

lemma updateRecord_no_cascade:
  assumes "backendMode env = Local" "hasWindow env"
    and "findIndex (\<lambda>r. id_field r = rid) (stableSort dateDescending (storedRecords ls)) = Some index"
    and "patch_advanceUsed patch = None" "patch_totalEarnings patch = None" "patch_date patch = None"
  shows "updateRecord env ls rid patch =
     (Inr (applyPatch (stableSort dateDescending (storedRecords ls) ! index) patch),
      ls\<lparr> earnings_records :=
            Parsed ((stableSort dateDescending (storedRecords ls))
                      [index := applyPatch (stableSort dateDescending (storedRecords ls) ! index) patch]) \<rparr>)"
  unfolding updateRecord_def listRecords_local [OF assms(1,2)] Let_def
  by (simp only: assms if_True if_False sum.case option.case simp_thms)

lemma applyPatch_notes_action:
  assumes "patch_date p = None" "patch_basePay p = None" "patch_bookings p = None"
    "patch_bookingPay p = None" "patch_inquiryPay p = None" "patch_totalEarnings p = None"
    "patch_advanceUsed p = None" "patch_remaining p = None" "patch_isInitialAdvance p = None"
  shows "applyPatch r p =
         r\<lparr> notes_field := orKeep (patch_notes p) (notes_field r),
            action := orKeep (patch_action p) (action r) \<rparr>"
  by (simp add: applyPatch_def orKeep_def assms)

lemma deleteRecord_local:
  assumes "backendMode env = Local" "hasWindow env" "getSettings env ls = Inr settings"
  shows "deleteRecord env ls rid =
     (Inr (),
      ls\<lparr> earnings_records :=
            Parsed (recalcFrom (effectiveAdvance (stableSort dateDescending (storedRecords ls)) rid)
                      settings 0
                      (stableSort dateAscending
                         (filter (\<lambda>r. id_field r \<noteq> rid)
                            (stableSort dateDescending (storedRecords ls))))) \<rparr>)"
  unfolding deleteRecord_def getInitialAdvanceRecord_def listRecords_local [OF assms(1,2)] Let_def
    effectiveAdvance_def
  by (simp only: assms if_True if_False sum.case simp_thms)


section \<open>The recalculation loop\<close>

lemma length_recalcAt: "length (recalcAt ia s i xs) = length xs"
  by (simp add: recalcAt_def Let_def)

lemma recalcAt_split:
  assumes "length done = i"
  shows "recalcAt ia s i (done @ cur # rest) =
     (if isAnchor cur then done @ cur # rest
      else if i = 0 \<or> (case ia of Some a \<Rightarrow> date cur \<le> date a | None \<Rightarrow> False)
      then done @ stamp (startingPoint ia s) cur # rest
      else done @
           stamp (if filter (\<lambda>r. \<not> isAnchor r \<or> date r \<le> date cur) done \<noteq> []
                  then remaining (last (filter (\<lambda>r. \<not> isAnchor r \<or> date r \<le> date cur) done))
                  else startingPoint ia s) cur # rest)"
proof -
  have cur: "(done @ cur # rest) ! i = cur" using assms by (simp add: nth_append)
  have tk: "take i (done @ cur # rest) = done" using assms by simp
  have upd: "(done @ cur # rest)[i := v] = done @ v # rest" for v
    using assms by (simp add: list_update_append)
  show ?thesis
    unfolding recalcAt_def Let_def cur tk upd stamp_def by (rule refl)
qed

lemma eraseRemaining_stamped: "eraseRemaining (r\<lparr> remaining := v \<rparr>) = eraseRemaining r"
  by (simp add: eraseRemaining_def)

lemma map_erase_update:
  assumes "i < length xs"
  shows "map eraseRemaining (xs[i := (xs ! i)\<lparr> remaining := v \<rparr>]) = map eraseRemaining xs"
proof -
  have "map eraseRemaining (xs[i := (xs ! i)\<lparr> remaining := v \<rparr>]) =
        (map eraseRemaining xs)[i := eraseRemaining (xs ! i)]"
    by (simp only: map_update eraseRemaining_stamped)
  also have "\<dots> = (map eraseRemaining xs)[i := map eraseRemaining xs ! i]"
    using assms by simp
  also have "\<dots> = map eraseRemaining xs" by (rule list_update_id)
  finally show ?thesis .
qed

lemma map_erase_recalcAt:
  assumes "i < length xs"
  shows "map eraseRemaining (recalcAt ia s i xs) = map eraseRemaining xs"
  unfolding recalcAt_def Let_def
  by (simp only: map_erase_update [OF assms] if_distrib [of "map eraseRemaining"] if_cancel)

lemma map_erase_fold:
  "\<forall>i\<in>set js. i < length xs \<Longrightarrow>
   map eraseRemaining (fold (recalcAt ia s) js xs) = map eraseRemaining xs"
proof (induction js arbitrary: xs)
  case Nil
  show ?case by simp
next
  case (Cons j js)
  have j: "j < length xs" using Cons.prems by simp
  have "\<forall>i\<in>set js. i < length (recalcAt ia s j xs)"
    using Cons.prems by (simp add: length_recalcAt)
  then have "map eraseRemaining (fold (recalcAt ia s) js (recalcAt ia s j xs)) =
             map eraseRemaining (recalcAt ia s j xs)"
    by (rule Cons.IH)
  then show ?case using map_erase_recalcAt [OF j] by simp
qed

lemma map_erase_recalcFrom:
  "map eraseRemaining (recalcFrom ia s k xs) = map eraseRemaining xs"
  unfolding recalcFrom_def by (rule map_erase_fold) simp






section \<open>updateRecord never reaches its TypeError branches\<close>

lemma id_field_applyPatch: "id_field (applyPatch r p) = id_field r"
  by (simp add: applyPatch_def)

lemma id_field_eraseRemaining: "id_field (eraseRemaining r) = id_field r"
  by (simp add: eraseRemaining_def)

lemma find_exists: "\<exists>x\<in>set xs. P x \<Longrightarrow> \<exists>y. List.find P xs = Some y"
  by (cases "List.find P xs") (auto simp: find_None_iff)

lemma recalcFrom_keeps_id:
  assumes "\<exists>x\<in>set xs. id_field x = rid"
  shows "\<exists>y\<in>set (recalcFrom ia s k xs). id_field y = rid"
proof -
  from assms obtain x where x: "x \<in> set xs" "id_field x = rid" by blast
  have "eraseRemaining x \<in> set (map eraseRemaining xs)" using x(1) by simp
  then have "eraseRemaining x \<in> set (map eraseRemaining (recalcFrom ia s k xs))"
    by (simp only: map_erase_recalcFrom)
  then obtain y where y: "y \<in> set (recalcFrom ia s k xs)" "eraseRemaining y = eraseRemaining x"
    by auto
  from y(2) have "id_field (eraseRemaining y) = id_field (eraseRemaining x)" by simp
  then have "id_field y = rid" using x(2) by (simp only: id_field_eraseRemaining)
  with y(1) show ?thesis by blast
qed

lemma updateRecord_no_TypeError:
  assumes env: "backendMode env = Local" "hasWindow env"
  shows "fst (updateRecord env ls rid patch) \<noteq> Inl TypeError"
proof -
  let ?records = "stableSort dateDescending (storedRecords ls)"
  obtain settings where settings: "getSettings env ls = Inr settings"
    using getSettings_local [OF env(1)] by blast
  show ?thesis
  proof (cases "findIndex (\<lambda>r. id_field r = rid) ?records")
    case None
    then show ?thesis
      unfolding updateRecord_def listRecords_local [OF env] using env by simp
  next
    case (Some index)
    let ?updated = "applyPatch (?records ! index) patch"
    let ?sorted = "stableSort dateAscending (?records[index := ?updated])"
    from findIndex_Some [OF Some] have lt: "index < length ?records"
      and oid: "id_field (?records ! index) = rid" by simp_all
    have "?updated \<in> set (?records[index := ?updated])" using lt by (rule set_update_memI)
    then have "?updated \<in> set ?sorted" by (simp only: set_stableSort)
    moreover have "id_field ?updated = rid" using oid by (simp only: id_field_applyPatch)
    ultimately have ex: "\<exists>x\<in>set ?sorted. id_field x = rid" by blast
    then obtain recordIndex where ri: "findIndex (\<lambda>r. id_field r = rid) ?sorted = Some recordIndex"
      using findIndex_exists [of ?sorted "\<lambda>r. id_field r = rid"] by blast
    let ?final = "recalcFrom (List.find isAnchor ?records) settings recordIndex ?sorted"
    from recalcFrom_keeps_id [OF ex]
    obtain r where r: "List.find (\<lambda>r. id_field r = rid) ?final = Some r"
      using find_exists [of ?final "\<lambda>r. id_field r = rid"] by blast
    show ?thesis
      unfolding updateRecord_def listRecords_local [OF env] getInitialAdvanceRecord_def Let_def
      using env Some ri r settings by simp
  qed
qed


section \<open>The loop without an anchor is the forward chain\<close>

lemma length_chainFrom: "length (chainFrom b xs) = length xs"
  by (induction xs arbitrary: b) (simp_all add: Let_def)

lemma chainFrom_Nil_iff: "chainFrom b xs = [] \<longleftrightarrow> xs = []"
  by (cases xs) (simp_all add: Let_def)

lemma isAnchor_chainFrom:
  "\<forall>x\<in>set xs. \<not> isAnchor x \<Longrightarrow> \<forall>y\<in>set (chainFrom b xs). \<not> isAnchor y"
  by (induction xs arbitrary: b) (simp_all add: Let_def isAnchor_def)

lemma chainFrom_snoc:
  "chainFrom b (xs @ [x]) =
   chainFrom b xs @
     [x\<lparr> remaining := calculateRemaining (balanceAfter b xs) (advanceUsed x) (totalEarnings x) \<rparr>]"
proof (induction xs arbitrary: b)
  case Nil
  then show ?case by (simp add: balanceAfter_def Let_def)
next
  case (Cons y ys)
  show ?case
    by (simp add: Let_def Cons.IH balanceAfter_def chainFrom_Nil_iff)
qed

lemma recalcAt_no_anchor:
  assumes k: "k < length ys" and na: "\<forall>y\<in>set ys. \<not> isAnchor y"
  shows "recalcAt None s k (chainFrom (advanceBalance s) (take k ys) @ drop k ys) =
         chainFrom (advanceBalance s) (take (Suc k) ys) @ drop (Suc k) ys"
proof -
  let ?b = "advanceBalance s"
  let ?done = "chainFrom ?b (take k ys)"
  let ?cur = "ys ! k"
  let ?rest = "drop (Suc k) ys"
  have len: "length ?done = k" using k by (simp add: length_chainFrom)
  have dr: "drop k ys = ?cur # ?rest" using k by (simp add: Cons_nth_drop_Suc)
  have cur_na: "\<not> isAnchor ?cur" using k na by simp
  have "\<forall>y\<in>set (take k ys). \<not> isAnchor y" using na by (auto dest: in_set_takeD)
  then have done_na: "\<forall>y\<in>set ?done. \<not> isAnchor y" by (rule isAnchor_chainFrom)
  then have flt: "filter (\<lambda>r. \<not> isAnchor r \<or> date r \<le> date ?cur) ?done = ?done"
    by (simp add: filter_id_conv)
  have snoc: "chainFrom ?b (take (Suc k) ys) = ?done @ [stamp (balanceAfter ?b (take k ys)) ?cur]"
    using k by (simp add: take_Suc_conv_app_nth chainFrom_snoc stamp_def)
  have bal: "balanceAfter ?b (take k ys) =
             (if k = 0 then startingPoint None s
              else if ?done \<noteq> [] then remaining (last ?done) else startingPoint None s)"
    using k by (auto simp: balanceAfter_def startingPoint_def chainFrom_Nil_iff)
  have "recalcAt None s k (?done @ ?cur # ?rest) = ?done @ stamp (balanceAfter ?b (take k ys)) ?cur # ?rest"
    unfolding recalcAt_split [OF len] flt bal using cur_na by simp
  then show ?thesis unfolding dr snoc by simp
qed

lemma fold_recalcAt_no_anchor:
  assumes na: "\<forall>y\<in>set ys. \<not> isAnchor y"
  shows "k \<le> length ys \<Longrightarrow>
         fold (recalcAt None s) [0..<k] ys =
         chainFrom (advanceBalance s) (take k ys) @ drop k ys"
proof (induction k)
  case 0
  then show ?case by simp
next
  case (Suc k)
  then have k: "k < length ys" by simp
  have "fold (recalcAt None s) [0..<Suc k] ys =
        recalcAt None s k (fold (recalcAt None s) [0..<k] ys)" by simp
  also have "\<dots> = recalcAt None s k (chainFrom (advanceBalance s) (take k ys) @ drop k ys)"
    using Suc by simp
  also have "\<dots> = chainFrom (advanceBalance s) (take (Suc k) ys) @ drop (Suc k) ys"
    using k na by (rule recalcAt_no_anchor)
  finally show ?case .
qed

lemma recalcFrom_no_anchor:
  "\<forall>y\<in>set ys. \<not> isAnchor y \<Longrightarrow>
   recalcFrom None s 0 ys = chainFrom (advanceBalance s) ys"
proof -
  assume na: "\<forall>y\<in>set ys. \<not> isAnchor y"
  have "fold (recalcAt None s) [0..<length ys] ys =
        chainFrom (advanceBalance s) (take (length ys) ys) @ drop (length ys) ys"
    using na order_refl by (rule fold_recalcAt_no_anchor)
  then show ?thesis unfolding recalcFrom_def by simp
qed


section \<open>The starting balance of saveRecord\<close>

lemma savePrevRemaining_cases:
  assumes settings: "getSettings env ls = Inr settings"
    and recs: "set records = set rs"
    and anchor: "initialAdvance = List.find isAnchor records"
  shows "\<exists>prev. savePrevRemaining env ls records initialAdvance record = Inr prev \<and>
     (if \<exists>r\<in>set rs. \<not> isAnchor r \<and> date r < date record
      then \<exists>m\<in>set rs. \<not> isAnchor m \<and> date m < date record \<and>
             (\<forall>r\<in>set rs. \<not> isAnchor r \<and> date r < date record \<longrightarrow> date r \<le> date m) \<and>
             prev = remaining m
      else if \<exists>a\<in>set rs. isAnchor a
      then \<exists>a\<in>set rs. isAnchor a \<and> prev = remaining a
      else prev = advanceBalance settings)"
proof (cases initialAdvance)
  case None
  then have noanchor: "\<forall>x\<in>set rs. \<not> isAnchor x"
    using anchor recs by (simp add: find_None_iff)
  let ?prevs = "filter (\<lambda>r. date r < date record) records"
  show ?thesis
  proof (cases "stableSort dateDescending ?prevs")
    case Nil
    then have "?prevs = []" by (simp add: stableSort_Nil_iff)
    then have none: "\<not> (\<exists>r\<in>set rs. \<not> isAnchor r \<and> date r < date record)"
      using recs by (auto simp: filter_empty_conv)
    have "savePrevRemaining env ls records initialAdvance record = Inr (advanceBalance settings)"
      unfolding savePrevRemaining_def None Nil settings by simp
    with none noanchor show ?thesis by simp
  next
    case (Cons m ms)
    from mostRecent_head [OF Cons]
    have m: "m \<in> set rs" "date m < date record"
      and mx: "\<forall>r\<in>set ?prevs. date r \<le> date m"
      using recs by auto
    have "savePrevRemaining env ls records initialAdvance record = Inr (remaining m)"
      unfolding savePrevRemaining_def None Cons by simp
    moreover have "\<not> isAnchor m" using m(1) noanchor by simp
    moreover have "\<forall>r\<in>set rs. \<not> isAnchor r \<and> date r < date record \<longrightarrow> date r \<le> date m"
      using mx recs by auto
    ultimately show ?thesis using m by auto
  qed
next
  case (Some ia)
  then have ia: "ia \<in> set rs" "isAnchor ia"
    using anchor recs by (auto simp: find_Some_iff)
  let ?prevs = "filter (\<lambda>r. date r < date record \<and> \<not> isAnchor r) records"
  show ?thesis
  proof (cases "stableSort dateDescending ?prevs")
    case Nil
    then have "?prevs = []" by (simp add: stableSort_Nil_iff)
    then have none: "\<not> (\<exists>r\<in>set rs. \<not> isAnchor r \<and> date r < date record)"
      using recs by (auto simp: filter_empty_conv)
    have "savePrevRemaining env ls records initialAdvance record = Inr (remaining ia)"
      unfolding savePrevRemaining_def Some Nil by simp
    with none ia show ?thesis by auto
  next
    case (Cons m ms)
    from mostRecent_head [OF Cons]
    have m: "m \<in> set rs" "date m < date record" "\<not> isAnchor m"
      and mx: "\<forall>r\<in>set ?prevs. date r \<le> date m"
      using recs by auto
    have "savePrevRemaining env ls records initialAdvance record = Inr (remaining m)"
      unfolding savePrevRemaining_def Some Cons by simp
    moreover have "\<forall>r\<in>set rs. \<not> isAnchor r \<and> date r < date record \<longrightarrow> date r \<le> date m"
      using mx recs by auto
    ultimately show ?thesis using m by auto
  qed
qed


text \<open>
  What \<open>saveRecord\<close> computes: the new record starts from a record of the latest date
  among the non-anchor records dated strictly before it, when there is one; else from
  an anchor, when the store has one; else from \<open>settings.advanceBalance\<close>.
\<close>

lemma saveRecord_starting_balance:
  assumes env: "backendMode env = Local" "hasWindow env"
    and settings: "getSettings env ls = Inr settings"
  shows "\<exists>prev.
           saveRecord env fr ls record =
             (Inr (newRecordOf record fr
                     (calculateRemaining prev (advanceUsed record) (totalEarnings record))),
              ls\<lparr> earnings_records :=
                    Parsed (stableSort dateDescending (storedRecords ls) @
                            [newRecordOf record fr
                               (calculateRemaining prev (advanceUsed record)
                                  (totalEarnings record))]) \<rparr>) \<and>
           (if \<exists>r\<in>set (storedRecords ls). \<not> isAnchor r \<and> date r < date record
            then \<exists>m\<in>set (storedRecords ls).
                   \<not> isAnchor m \<and> date m < date record \<and>
                   (\<forall>r\<in>set (storedRecords ls).
                      \<not> isAnchor r \<and> date r < date record \<longrightarrow> date r \<le> date m) \<and>
                   prev = remaining m
            else if \<exists>a\<in>set (storedRecords ls). isAnchor a
            then \<exists>a\<in>set (storedRecords ls). isAnchor a \<and> prev = remaining a
            else prev = advanceBalance settings)"
proof -
  let ?records = "stableSort dateDescending (storedRecords ls)"
  have recs: "set ?records = set (storedRecords ls)" by (rule set_stableSort)
  from savePrevRemaining_cases [OF settings recs refl, of "record"]
  obtain prev where
    p: "savePrevRemaining env ls ?records (List.find isAnchor ?records) record = Inr prev"
    and c: "if \<exists>r\<in>set (storedRecords ls). \<not> isAnchor r \<and> date r < date record
            then \<exists>m\<in>set (storedRecords ls).
                   \<not> isAnchor m \<and> date m < date record \<and>
                   (\<forall>r\<in>set (storedRecords ls).
                      \<not> isAnchor r \<and> date r < date record \<longrightarrow> date r \<le> date m) \<and>
                   prev = remaining m
            else if \<exists>a\<in>set (storedRecords ls). isAnchor a
            then \<exists>a\<in>set (storedRecords ls). isAnchor a \<and> prev = remaining a
            else prev = advanceBalance settings"
    by blast
  from saveRecord_local [OF env p, of fr] c show ?thesis by blast
qed


section \<open>Ledger arithmetic: the laws\<close>

text \<open>
  C4, as the specification states it, fails: the balance update is computed in binary64
  and is not the exact difference for all inputs. For the doubles
  \<open>R = 9007199254740992\<close> (that is \<open>2 ^ 53\<close>), \<open>A = 0\<close> and \<open>E = -1\<close> the function returns
  \<open>9007199254740992\<close>, while \<open>R - E = 9007199254740993\<close>.
\<close>

theorem calculateRemaining_exact_counterexample:
  "representable 9007199254740992 \<and> representable (- 1) \<and>
   calculateRemaining_binary64 (Finite 9007199254740992) (Finite 0) (Finite (- 1)) =
     Finite 9007199254740992 \<and>
   (9007199254740992 :: real) - (- 1) = 9007199254740993"
proof -
  have a: "representable 9007199254740992"
    by (rule representableI [of 4503599627370496 1075]) simp_all
  have b: "representable (- 1)" using representable_int [of "-1"] by simp
  have c: "calculateRemaining_binary64 (Finite 9007199254740992) (Finite 0) (Finite (- 1)) =
     Finite 9007199254740992"
    unfolding calculateRemaining_binary64_def num_is_zero_def
    using round_2_53_plus_1 by simp
  from a b c show ?thesis by simp
qed

text \<open>
  C4, amended. For all finite doubles \<open>R\<close>, \<open>A\<close> and \<open>E\<close> (a negative previous balance
  included) the balance update has two branches, computed in binary64: with no advance
  used today the result is \<open>R - E\<close> rounded to the nearest double; otherwise it is the
  rounded \<open>R - A\<close> plus \<open>E\<close>, rounded again. The result is exactly \<open>R - E\<close>, respectively
  \<open>R - A + E\<close>, whenever \<open>R - E\<close>, respectively \<open>R - A\<close> and \<open>R - A + E\<close>, are doubles.
\<close>

theorem calculateRemaining_binary64_rule:
  "calculateRemaining_binary64 (Finite R) (Finite 0) (Finite E) = round64 (R - E) \<and>
   (A \<noteq> 0 \<longrightarrow>
      calculateRemaining_binary64 (Finite R) (Finite A) (Finite E) =
        num_add (round64 (R - A)) (Finite E)) \<and>
   (representable (R - E) \<longrightarrow>
      calculateRemaining_binary64 (Finite R) (Finite 0) (Finite E) = Finite (R - E)) \<and>
   (A \<noteq> 0 \<longrightarrow> representable (R - A) \<longrightarrow> representable (R - A + E) \<longrightarrow>
      calculateRemaining_binary64 (Finite R) (Finite A) (Finite E) = Finite (R - A + E))"
  by (simp add: calculateRemaining_binary64_def num_is_zero_def round64_representable)

theorem calculateRemaining_binary64_rule_witness:
  "calculateRemaining_binary64 (Finite (-40)) (Finite 0) (Finite 25) = Finite (-65) \<and>
   calculateRemaining_binary64 (Finite (-40)) (Finite 10) (Finite 25) = Finite (-25)"
proof -
  have a: "representable (-40 - 25)" using representable_int [of "-65"] by simp
  have b: "representable (-40 - 10)" using representable_int [of "-50"] by simp
  have c: "representable (-40 - 10 + 25)" using representable_int [of "-25"] by simp
  have nz: "(10::real) \<noteq> 0" by simp
  have r1: "calculateRemaining_binary64 (Finite (-40)) (Finite 0) (Finite 25) = Finite (-40 - 25)"
    using calculateRemaining_binary64_rule [of "-40" 25 10] a by blast
  have r2: "calculateRemaining_binary64 (Finite (-40)) (Finite 10) (Finite 25) =
            Finite (-40 - 10 + 25)"
    using calculateRemaining_binary64_rule [of "-40" 25 10] nz b c by blast
  show ?thesis using r1 r2 by simp
qed

text \<open>
  C8, as the specification states it, fails: the product is computed in binary64 and is
  rounded. For \<open>94906267\<close> bookings at the rate \<open>94906267\<close> the function returns
  \<open>9007199515875288\<close>, while the product is \<open>9007199515875289\<close>; for the double nearest to
  \<open>0.1\<close> at the rate \<open>3\<close> it returns \<open>0.30000000000000004\<close>, which is not the product of
  the two doubles.
\<close>

theorem calculateBookingPay_exact_counterexample:
  "representable 94906267 \<and>
   calculateBookingPay (Finite 94906267) (Some (Finite 94906267)) = Finite 9007199515875288 \<and>
   (94906267 :: real) * 94906267 = 9007199515875289 \<and>
   representable (3602879701896397 / 36028797018963968) \<and> representable 3 \<and>
   calculateBookingPay (Finite (3602879701896397 / 36028797018963968)) (Some (Finite 3)) =
     Finite (5404319552844596 / 18014398509481984) \<and>
   (3602879701896397 / 36028797018963968 :: real) * 3 = 10808639105689191 / 36028797018963968 \<and>
   (5404319552844596 / 18014398509481984 :: real) \<noteq> 10808639105689191 / 36028797018963968"
proof -
  have a: "representable 94906267" using representable_int [of 94906267] by simp
  have b: "calculateBookingPay (Finite 94906267) (Some (Finite 94906267)) =
           Finite 9007199515875288"
    unfolding calculateBookingPay_def num_less_zero_def using round_square by simp
  have c: "representable (3602879701896397 / 36028797018963968)"
    by (rule representableI [of 3602879701896397 1019]) simp_all
  have d: "representable 3" using representable_int [of 3] by simp
  have e: "calculateBookingPay (Finite (3602879701896397 / 36028797018963968)) (Some (Finite 3)) =
     Finite (5404319552844596 / 18014398509481984)"
    unfolding calculateBookingPay_def num_less_zero_def using round_tenth_times_3 by simp
  from a b c d e show ?thesis by simp
qed

text \<open>
  C8, amended. For all finite doubles \<open>b\<close> and \<open>r\<close>, booking pay is 0 when \<open>b < 0\<close>,
  whatever the rate; otherwise it is the product \<open>b * r\<close> rounded to the nearest double
  (the one rounding of the binary64 multiplication; the function rounds no further, and
  a fractional number of bookings is multiplied as it is). The result is exactly
  \<open>b * r\<close> whenever \<open>b * r\<close> is a double.
\<close>

theorem calculateBookingPay_binary64_rule:
  "(b < 0 \<longrightarrow> calculateBookingPay (Finite b) (Some (Finite r)) = Finite 0) \<and>
   (0 \<le> b \<longrightarrow> calculateBookingPay (Finite b) (Some (Finite r)) = round64 (b * r)) \<and>
   (0 \<le> b \<longrightarrow> representable (b * r) \<longrightarrow>
      calculateBookingPay (Finite b) (Some (Finite r)) = Finite (b * r))"
  by (simp add: calculateBookingPay_def num_less_zero_def round64_representable)

theorem calculateBookingPay_binary64_rule_witness:
  "calculateBookingPay (Finite (- 2)) (Some (Finite 50)) = Finite 0 \<and>
   calculateBookingPay (Finite (5 / 2)) (Some (Finite 50)) = Finite 125"
proof -
  have a: "representable (5 / 2 * 50)" using representable_int [of 125] by simp
  have neg: "(-2::real) < 0" and pos: "(0::real) \<le> 5 / 2" by simp_all
  have r1: "calculateBookingPay (Finite (- 2)) (Some (Finite 50)) = Finite 0"
    using calculateBookingPay_binary64_rule [of "-2" 50] neg by blast
  have r2: "calculateBookingPay (Finite (5 / 2)) (Some (Finite 50)) = Finite (5 / 2 * 50)"
    using calculateBookingPay_binary64_rule [of "5 / 2" 50] pos a by blast
  show ?thesis using r1 r2 by simp
qed


section \<open>Default settings\<close>

text \<open>
  C10. In local mode \<open>getSettings\<close> returns the fixed defaults (base pay 200, 50 per
  booking, advance balance 0) whenever no settings item is stored or the stored item
  does not parse; so the first record saved into a store without records starts from
  the balance 0.
\<close>

theorem getSettings_defaults:
  assumes "backendMode env = Local"
    and "earnings_settings ls = NoItem \<or> earnings_settings ls = Unparseable"
  shows "getSettings env ls = Inr DEFAULT_SETTINGS \<and>
         EarningSettings.basePay DEFAULT_SETTINGS = 200 \<and>
         perBooking DEFAULT_SETTINGS = 50 \<and>
         advanceBalance DEFAULT_SETTINGS = 0 \<and>
         (hasWindow env \<longrightarrow> storedRecords ls = [] \<longrightarrow>
            fst (saveRecord env fr ls record) =
              Inr (newRecordOf record fr
                     (calculateRemaining 0 (advanceUsed record) (totalEarnings record))))"
proof -
  have gs: "getSettings env ls = Inr DEFAULT_SETTINGS"
    using assms by (auto simp: getSettings_def)
  have sv: "fst (saveRecord env fr ls record) =
              Inr (newRecordOf record fr
                     (calculateRemaining 0 (advanceUsed record) (totalEarnings record)))"
    if w: "hasWindow env" and e: "storedRecords ls = []"
  proof -
    have lr: "listRecords env ls = Inr []"
      using listRecords_local [OF assms(1) w, of ls] e by (simp add: stableSort_def)
    show ?thesis
      unfolding saveRecord_def getInitialAdvanceRecord_def lr savePrevRemaining_def gs
      using assms(1) w by (simp add: stableSort_def DEFAULT_SETTINGS_def Let_def)
  qed
  show ?thesis using gs sv by (simp add: DEFAULT_SETTINGS_def)
qed

theorem getSettings_defaults_witness:
  "getSettings browser emptyStore = Inr DEFAULT_SETTINGS \<and>
   getSettings browser (emptyStore\<lparr> earnings_settings := Unparseable \<rparr>) = Inr DEFAULT_SETTINGS \<and>
   advanceBalance DEFAULT_SETTINGS = 0 \<and>
   fst (saveRecord browser (clock ''first'') emptyStore (entry ''2024-02-01'' 100)) =
     Inr (newRecordOf (entry ''2024-02-01'' 100) (clock ''first'')
            (calculateRemaining 0 (advanceUsed (entry ''2024-02-01'' 100))
               (totalEarnings (entry ''2024-02-01'' 100))))"
proof -
  have a: "earnings_settings emptyStore = NoItem \<or> earnings_settings emptyStore = Unparseable"
    by (simp add: emptyStore_def)
  have b: "earnings_settings (emptyStore\<lparr> earnings_settings := Unparseable \<rparr>) = NoItem \<or>
           earnings_settings (emptyStore\<lparr> earnings_settings := Unparseable \<rparr>) = Unparseable"
    by simp
  have e: "storedRecords emptyStore = []" by (simp add: storedRecords_def emptyStore_def)
  show ?thesis
    using getSettings_defaults [OF browser_local(1) a, of "clock ''first''" "entry ''2024-02-01'' 100"]
          getSettings_defaults [OF browser_local(1) b]
          browser_local(2) e
    by simp
qed


section \<open>The initial advance record is created once\<close>

text \<open>
  C5. When the store already holds an initial advance record, \<open>createInitialAdvanceRecord\<close>
  fails with the error "An initial advance record already exists", for every amount and
  date, and leaves the store as it was. When the store holds none, it appends a record
  flagged as the initial advance whose remaining balance is the given amount and whose
  base pay, bookings, booking pay, inquiry pay, total earnings and advance used are 0.
\<close>

theorem createInitialAdvanceRecord_exclusive:
  assumes "backendMode env = Local" and "hasWindow env"
  shows "((\<exists>a\<in>set (storedRecords ls). isAnchor a) \<longrightarrow>
            createInitialAdvanceRecord env fr ls amount d = (Inl Initial_advance_exists, ls)) \<and>
         ((\<forall>a\<in>set (storedRecords ls). \<not> isAnchor a) \<longrightarrow>
            (\<exists>r. createInitialAdvanceRecord env fr ls amount d =
                   (Inr r, ls\<lparr> earnings_records :=
                                Parsed (stableSort dateDescending (storedRecords ls) @ [r]) \<rparr>) \<and>
                 isAnchor r \<and> remaining r = amount \<and>
                 RecordFields.basePay r = 0 \<and> bookings r = 0 \<and> bookingPay r = 0 \<and>
                 inquiryPay r = 0 \<and> totalEarnings r = 0 \<and> advanceUsed r = 0 \<and>
                 date r = dateOrToday d fr \<and> id_field r = newId fr))"
  using assms
  by (simp add: createInitialAdvanceRecord_def listRecords_local list_ex_iff set_stableSort
      isAnchor_def Let_def)

theorem createInitialAdvanceRecord_exclusive_witness:
  "createInitialAdvanceRecord browser (clock ''again'') anchorStore 500 (Some ''2024-02-01'') =
     (Inl Initial_advance_exists, anchorStore) \<and>
   (\<exists>r. createInitialAdvanceRecord browser (clock ''anchor'') emptyStore 1000 (Some ''2024-01-01'') =
          (Inr r, emptyStore\<lparr> earnings_records :=
                     Parsed (stableSort dateDescending (storedRecords emptyStore) @ [r]) \<rparr>) \<and>
        isAnchor r \<and> remaining r = 1000 \<and>
        RecordFields.basePay r = 0 \<and> bookings r = 0 \<and> bookingPay r = 0 \<and>
        inquiryPay r = 0 \<and> totalEarnings r = 0 \<and> advanceUsed r = 0 \<and>
        date r = dateOrToday (Some ''2024-01-01'') (clock ''anchor'') \<and>
        id_field r = newId (clock ''anchor''))"
proof -
  have has: "\<exists>a\<in>set (storedRecords anchorStore). isAnchor a" by code_simp
  have none: "\<forall>a\<in>set (storedRecords emptyStore). \<not> isAnchor a"
    by (simp add: storedRecords_def emptyStore_def)
  show ?thesis
    using createInitialAdvanceRecord_exclusive
            [OF browser_local, of anchorStore "clock ''again''" 500 "Some ''2024-02-01''"]
          createInitialAdvanceRecord_exclusive
            [OF browser_local, of emptyStore "clock ''anchor''" 1000 "Some ''2024-01-01''"]
          has none
    by blast
qed


section \<open>The scenario of the specification\<close>

text \<open>
  C2. With an anchor of 1000 on 2024-01-01, record A of 2024-01-02 earning 200 is saved
  with the balance 800 and record B of 2024-01-03 earning 150 with the balance 650.
  Updating the total earnings of A to 300 gives A the balance 700 and B the balance 550.
  Deleting A then gives B the balance 850, computed from the anchor, which keeps 1000.
\<close>

theorem cascade_scenario:
  "remainingOf ''A'' (storedRecords storeA) = Some 800 \<and>
   remainingOf ''B'' (storedRecords storeAB) = Some 650 \<and>
   remainingOf ''A'' (storedRecords storeEdited) = Some 700 \<and>
   remainingOf ''B'' (storedRecords storeEdited) = Some 550 \<and>
   fst (deleteRecord browser storeEdited ''A'') = Inr () \<and>
   remainingOf ''A'' (storedRecords storeDeleted) = None \<and>
   remainingOf ''B'' (storedRecords storeDeleted) = Some 850 \<and>
   remainingOf ''anchor'' (storedRecords storeDeleted) = Some 1000"
  by code_simp


section \<open>Updating notes and action only\<close>

text \<open>
  C9. For every store and every id of a stored record, \<open>updateRecord\<close> with a patch that
  carries only notes and action (no date, no advance used, no total earnings, and no
  other key) returns the first listed record of that id with its notes and action
  replaced, and stores the same records with that one record replaced by the returned
  one. The balance of the patched record is unchanged, and every other record is
  unchanged altogether.
\<close>

theorem updateRecord_notes_action_frame:
  assumes env: "backendMode env = Local" "hasWindow env"
    and present: "\<exists>r\<in>set (storedRecords ls). id_field r = rid"
    and only: "patch_date p = None" "patch_basePay p = None" "patch_bookings p = None"
      "patch_bookingPay p = None" "patch_inquiryPay p = None" "patch_totalEarnings p = None"
      "patch_advanceUsed p = None" "patch_remaining p = None" "patch_isInitialAdvance p = None"
  shows "\<exists>old new rs'.
           old \<in> set (storedRecords ls) \<and> id_field old = rid \<and>
           new = old\<lparr> notes_field := orKeep (patch_notes p) (notes_field old),
                       action := orKeep (patch_action p) (action old) \<rparr> \<and>
           updateRecord env ls rid p = (Inr new, ls\<lparr> earnings_records := Parsed rs' \<rparr>) \<and>
           mset rs' = add_mset new (mset (storedRecords ls) - {#old#}) \<and>
           remaining new = remaining old"
proof -
  let ?records = "stableSort dateDescending (storedRecords ls)"
  have srt: "set ?records = set (storedRecords ls)" by (rule set_stableSort)
  have "\<exists>x\<in>set ?records. id_field x = rid" unfolding srt by (rule present)
  then obtain index where idx: "findIndex (\<lambda>r. id_field r = rid) ?records = Some index"
    using findIndex_exists [of ?records "\<lambda>r. id_field r = rid"] by blast
  let ?old = "?records ! index"
  let ?new = "?old\<lparr> notes_field := orKeep (patch_notes p) (notes_field ?old),
                      action := orKeep (patch_action p) (action ?old) \<rparr>"
  from findIndex_Some [OF idx] have lt: "index < length ?records" and oid: "id_field ?old = rid"
    by simp_all
  have mem: "?old \<in> set (storedRecords ls)" using lt srt nth_mem by blast
  have ap: "applyPatch ?old p = ?new" using only by (rule applyPatch_notes_action)
  have upd: "updateRecord env ls rid p =
             (Inr ?new, ls\<lparr> earnings_records := Parsed (?records[index := ?new]) \<rparr>)"
    using updateRecord_no_cascade [OF env idx only(7) only(6) only(1)] unfolding ap .
  have "mset (?records[index := ?new]) = add_mset ?new (mset ?records - {#?old#})"
    using lt by (rule mset_update)
  then have ms: "mset (?records[index := ?new]) = add_mset ?new (mset (storedRecords ls) - {#?old#})"
    unfolding mset_stableSort .
  have rem: "remaining ?new = remaining ?old" by simp
  show ?thesis
    using mem oid upd ms rem by blast
qed

theorem updateRecord_notes_action_frame_witness:
  "\<exists>old new rs'.
      old \<in> set (storedRecords storeAB) \<and> id_field old = ''A'' \<and>
      new = old\<lparr> notes_field := orKeep (patch_notes (emptyPatch\<lparr> patch_notes := Some ''late shift'' \<rparr>))
                                    (notes_field old),
                  action := orKeep (patch_action (emptyPatch\<lparr> patch_notes := Some ''late shift'' \<rparr>))
                               (action old) \<rparr> \<and>
      updateRecord browser storeAB ''A'' (emptyPatch\<lparr> patch_notes := Some ''late shift'' \<rparr>) =
        (Inr new, storeAB\<lparr> earnings_records := Parsed rs' \<rparr>) \<and>
      mset rs' = add_mset new (mset (storedRecords storeAB) - {#old#}) \<and>
      remaining new = remaining old"
proof -
  have present: "\<exists>r\<in>set (storedRecords storeAB). id_field r = ''A''" by code_simp
  show ?thesis
    using browser_local present
    by (rule updateRecord_notes_action_frame) (simp_all add: emptyPatch_def)
qed


section \<open>Deleting the initial advance record\<close>

text \<open>
  C7. In a store whose only anchor is the record \<open>a\<close>, and where no other record has
  the id of \<open>a\<close>, \<open>deleteRecord\<close> with the id of \<open>a\<close> removes the anchor and stores the
  other records in date-ascending order, recomputed as one forward chain: the first
  record starts from \<open>settings.advanceBalance\<close>, every later record from the new balance
  of its predecessor.
\<close>

theorem deleteRecord_anchor_fallback:
  assumes env: "backendMode env = Local" "hasWindow env"
    and settings: "getSettings env ls = Inr settings"
    and a: "a \<in> set (storedRecords ls)" "isAnchor a"
    and others: "\<forall>r\<in>set (storedRecords ls). r \<noteq> a \<longrightarrow> \<not> isAnchor r \<and> id_field r \<noteq> id_field a"
  shows "deleteRecord env ls (id_field a) =
           (Inr (),
            ls\<lparr> earnings_records :=
                  Parsed (chainFrom (advanceBalance settings)
                            (stableSort dateAscending
                               (filter (\<lambda>r. id_field r \<noteq> id_field a)
                                  (stableSort dateDescending (storedRecords ls))))) \<rparr>)"
proof -
  let ?records = "stableSort dateDescending (storedRecords ls)"
  let ?sorted = "stableSort dateAscending (filter (\<lambda>r. id_field r \<noteq> id_field a) ?records)"
  have srt: "set ?records = set (storedRecords ls)" by (rule set_stableSort)
  have mem: "a \<in> set ?records" unfolding srt by (rule a(1))
  have uniq: "\<forall>x\<in>set ?records. id_field x = id_field a \<longrightarrow> x = a"
    unfolding srt by (rule sole_holder(1) [OF others])
  have fnd: "List.find (\<lambda>r. id_field r = id_field a) ?records = Some a"
    using mem _ uniq by (rule find_unique) (rule refl)
  have eff: "effectiveAdvance ?records (id_field a) = None"
    unfolding effectiveAdvance_def fnd using a(2) by simp
  have "set ?sorted = {x \<in> set (storedRecords ls). id_field x \<noteq> id_field a}"
    unfolding set_stableSort set_filter srt by (rule refl)
  then have "\<forall>y\<in>set ?sorted. \<not> isAnchor y"
    using sole_holder(2) [OF others] by simp
  then have rc: "recalcFrom None settings 0 ?sorted = chainFrom (advanceBalance settings) ?sorted"
    by (rule recalcFrom_no_anchor)
  show ?thesis
    unfolding deleteRecord_local [OF env settings] eff rc by (rule refl)
qed

theorem deleteRecord_anchor_fallback_witness:
  "deleteRecord browser storeAB (id_field scenarioAnchor) =
     (Inr (),
      storeAB\<lparr> earnings_records :=
                 Parsed (chainFrom (advanceBalance DEFAULT_SETTINGS)
                           (stableSort dateAscending
                              (filter (\<lambda>r. id_field r \<noteq> id_field scenarioAnchor)
                                 (stableSort dateDescending (storedRecords storeAB))))) \<rparr>) \<and>
   remainingOf ''A'' (storedRecords (snd (deleteRecord browser storeAB ''anchor''))) = Some (-200) \<and>
   remainingOf ''B'' (storedRecords (snd (deleteRecord browser storeAB ''anchor''))) = Some (-350) \<and>
   remainingOf ''anchor'' (storedRecords (snd (deleteRecord browser storeAB ''anchor''))) = None"
proof -
  have balances:
    "remainingOf ''A'' (storedRecords (snd (deleteRecord browser storeAB ''anchor''))) = Some (-200) \<and>
     remainingOf ''B'' (storedRecords (snd (deleteRecord browser storeAB ''anchor''))) = Some (-350) \<and>
     remainingOf ''anchor'' (storedRecords (snd (deleteRecord browser storeAB ''anchor''))) = None"
    by code_simp
  have settings: "getSettings browser storeAB = Inr DEFAULT_SETTINGS" by code_simp
  have mem: "scenarioAnchor \<in> set (storedRecords storeAB)" by code_simp
  have anc: "isAnchor scenarioAnchor" by code_simp
  have others: "\<forall>r\<in>set (storedRecords storeAB).
                  r \<noteq> scenarioAnchor \<longrightarrow> \<not> isAnchor r \<and> id_field r \<noteq> id_field scenarioAnchor"
    by code_simp
  have "deleteRecord browser storeAB (id_field scenarioAnchor) =
     (Inr (),
      storeAB\<lparr> earnings_records :=
                 Parsed (chainFrom (advanceBalance DEFAULT_SETTINGS)
                           (stableSort dateAscending
                              (filter (\<lambda>r. id_field r \<noteq> id_field scenarioAnchor)
                                 (stableSort dateDescending (storedRecords storeAB))))) \<rparr>)"
    using browser_local settings mem anc others by (rule deleteRecord_anchor_fallback)
  with balances show ?thesis by (rule conjI [rotated])
qed


section \<open>Deleting an id that is not stored\<close>





section \<open>The starting balance of a saved record\<close>

text \<open>
  C3 at two inputs. With an anchor of 1000 on 2024-01-10 and a record of 2024-01-01
  (balance 900), a draft of 2024-01-05 earning 10 is dated before the anchor: the rule
  of the specification starts it from the anchor (990), \<open>saveRecord\<close> starts it from the
  earlier record and stores 890, and the recalculation loop of \<open>updateRecord\<close>, run for
  the same record in the same store, gives 990. With two records of 2024-01-01, the
  first with the balance -100 and the second with the balance -50, a draft of 2024-01-02
  earning 10 starts from the most recently inserted one by the specification (-60),
  \<open>saveRecord\<close> starts it from the first one and stores -110, and the recalculation loop
  gives -60.
\<close>

theorem saveRecord_resolution_divergence:
  "map_sum id remaining
     (fst (saveRecord browser (clock ''Y'') lateAnchorStore (entry ''2024-01-05'' 10))) = Inr 890 \<and>
   calculateRemaining
     (specStartingBalance DEFAULT_SETTINGS (storedRecords lateAnchorStore) ''2024-01-05'') 0 10 = 990 \<and>
   remainingOf ''Y'' (storedRecords lateAnchorSaved) = Some 890 \<and>
   remainingOf ''Y'' (storedRecords lateAnchorResaved) = Some 990 \<and>
   map_sum id remaining
     (fst (saveRecord browser (clock ''third'') tiedStore (entry ''2024-01-02'' 10))) = Inr (-110) \<and>
   calculateRemaining
     (specStartingBalance DEFAULT_SETTINGS (storedRecords tiedStore) ''2024-01-02'') 0 10 = -60 \<and>
   remainingOf ''third'' (storedRecords tiedSaved) = Some (-110) \<and>
   remainingOf ''third'' (storedRecords tiedResaved) = Some (-60)"
  by code_simp


section \<open>Convergence\<close>

text \<open>
  C1 at a sequence of two calls from the empty store: a record of 2024-01-02 earning 100
  is saved, then a record of 2024-01-01 earning 50. The later record keeps the balance
  -100 it was given when it was alone, while recomputing from scratch gives it -150,
  by the recomputation of the specification and by the forward pass of the code alike.
\<close>

theorem backdated_insert_not_converged:
  "remainingOf ''late'' (storedRecords backdatedStore) = Some (-100) \<and>
   remainingOf ''late'' (recomputeFromScratch DEFAULT_SETTINGS (storedRecords backdatedStore)) =
     Some (-150) \<and>
   remainingOf ''late''
     (recalcFrom None DEFAULT_SETTINGS 0 (stableSort dateAscending (storedRecords backdatedStore))) =
     Some (-150)"
  by code_simp

end
